theory Spec2Isabelle
  imports Main "HOL-Library.AList"
begin

section \<open>Annovate: the sidecar record of a directory\<close>

text \<open>
  A shallow embedding of \<^verbatim>\<open>annovate.py\<close>: the class \<^verbatim>\<open>MetaFile\<close> (load in
  \<^verbatim>\<open>__init__\<close>, \<^verbatim>\<open>add_information\<close>, \<^verbatim>\<open>write\<close>, \<^verbatim>\<open>get\<close>, \<^verbatim>\<open>files\<close>) and the
  \<^verbatim>\<open>get\<close> and \<^verbatim>\<open>list\<close> actions of \<^verbatim>\<open>main\<close>.

  Strings are \<^typ>\<open>string\<close>, a file is its decoded text. A Python \<^verbatim>\<open>dict\<close> keeps its keys in insertion order and
  \<^verbatim>\<open>list(self.data)\<close> exposes that order, so a dict is an association list: assigning to a
  key that is present replaces the value in place, assigning to a new key appends it.
  Timestamps are a type parameter \<open>'t\<close>; \<^verbatim>\<open>datetime.isoformat\<close> and
  \<^verbatim>\<open>datetime.fromisoformat\<close> belong to the standard library and are parameters of the
  operations that call them.
\<close>

subsection \<open>Text\<close>

abbreviation LF :: char where "LF \<equiv> CHR 0x0A"
abbreviation CR :: char where "CR \<equiv> CHR 0x0D"

text \<open>
  \<^verbatim>\<open>open(path)\<close> reads in text mode with universal newlines: \<^verbatim>\<open>\r\n\<close> and a lone \<^verbatim>\<open>\r\<close>
  reach the program as \<^verbatim>\<open>\n\<close>.
\<close>

fun universal_newlines :: "string \<Rightarrow> string" where
  "universal_newlines [] = []"
| "universal_newlines [c] = [if c = CR then LF else c]"
| "universal_newlines (c # d # cs) =
     (if c = CR \<and> d = LF then LF # universal_newlines cs
      else if c = CR then LF # universal_newlines (d # cs)
      else c # universal_newlines (d # cs))"

text \<open>\<^verbatim>\<open>for line in f\<close>: the lines of the text, each with its terminating \<^verbatim>\<open>\n\<close>
  (the last line has none when the text does not end with one).\<close>

fun readlines :: "string \<Rightarrow> string list" where
  "readlines [] = []"
| "readlines (c # cs) =
     (if c = LF then [LF] # readlines cs
      else (case readlines cs of
              [] \<Rightarrow> [[c]]
            | l # ls \<Rightarrow> (c # l) # ls))"

text \<open>\<^verbatim>\<open>line.startswith('@')\<close>\<close>

definition startswith_at :: "string \<Rightarrow> bool" where
  "startswith_at line = (case line of [] \<Rightarrow> False | c # _ \<Rightarrow> c = CHR ''@'')"

text \<open>\<^verbatim>\<open>s.rstrip('\n')\<close> removes every trailing newline.\<close>

definition rstrip_nl :: "string \<Rightarrow> string" where
  "rstrip_nl s = rev (dropWhile (\<lambda>c. c = LF) (rev s))"

text \<open>\<^verbatim>\<open>s.split(sep)\<close> for a one-character separator: never the empty list.\<close>

fun split_sep :: "char \<Rightarrow> string \<Rightarrow> string list" where
  "split_sep sep [] = [[]]"
| "split_sep sep (c # cs) =
     (if c = sep then [] # split_sep sep cs
      else (case split_sep sep cs of
              [] \<Rightarrow> [[c]]
            | p # ps \<Rightarrow> (c # p) # ps))"

text \<open>\<^verbatim>\<open>s.split(sep, maxsplit=1)\<close>: one part without the separator, otherwise the text
  before its first occurrence and everything after it.\<close>

definition split_first :: "char \<Rightarrow> string \<Rightarrow> string list" where
  "split_first sep s =
     (case dropWhile (\<lambda>c. c \<noteq> sep) s of
        [] \<Rightarrow> [s]
      | _ # rest \<Rightarrow> [takeWhile (\<lambda>c. c \<noteq> sep) s, rest])"

subsection \<open>Errors\<close>

text \<open>Every parse failure of the source is a \<^verbatim>\<open>ValueError\<close>: unpacking a split into two
  names, \<^verbatim>\<open>fromisoformat\<close> on a malformed timestamp, and the explicit \<^verbatim>\<open>raise\<close>. Failing to
  open the file is an \<^verbatim>\<open>OSError\<close>.\<close>

datatype reason = NotEnoughValues | TooManyValues | InvalidIsoformat | NotStartingWithAt

datatype error = ValueError reason | OSError

text \<open>\<^verbatim>\<open>a, b = parts\<close>\<close>

fun unpack2 :: "string list \<Rightarrow> error + (string \<times> string)" where
  "unpack2 [a, b] = Inr (a, b)"
| "unpack2 [] = Inl (ValueError NotEnoughValues)"
| "unpack2 [a] = Inl (ValueError NotEnoughValues)"
| "unpack2 (a # b # c # ds) = Inl (ValueError TooManyValues)"

subsection \<open>Data model\<close>

type_synonym Filename = string

record 't MetaInformation =
  filename :: Filename
  time :: 't
  properties :: "(string \<times> string) list"

record 't DatedValue =
  value_dv :: string
  time_dv :: 't

type_synonym 't entries = "(Filename \<times> (string \<times> 't DatedValue) list) list"

text \<open>The object: \<^verbatim>\<open>self.data\<close> and \<^verbatim>\<open>self.new_information\<close>. \<^verbatim>\<open>self.path\<close> is fixed; the
  file it names is the \<open>filesystem\<close> below.\<close>

record 't MetaFile =
  data :: "'t entries"
  new_information :: "'t MetaInformation list"

text \<open>The file at \<^verbatim>\<open>self.path\<close>: absent or present with its text, and whether
  \<^verbatim>\<open>open(path)\<close> and \<^verbatim>\<open>open(path, 'a')\<close> succeed.\<close>

record filesystem =
  content :: "string option"
  can_read :: bool
  can_append :: bool

subsection \<open>Dictionary operations\<close>

text \<open>\<^verbatim>\<open>d[k] = v\<close>\<close>

definition dict_setitem :: "('k \<times> 'v) list \<Rightarrow> 'k \<Rightarrow> 'v \<Rightarrow> ('k \<times> 'v) list" where
  "dict_setitem d k v = AList.update k v d"

text \<open>\<^verbatim>\<open>data.setdefault(file_key, {})\<close>. The dict it returns is the one stored under
  \<open>file_key\<close>, by reference; the model keeps the key and writes through it with
  \<open>setitem_inner\<close>.\<close>

definition setdefault_empty :: "'t entries \<Rightarrow> Filename \<Rightarrow> 't entries" where
  "setdefault_empty d file_key =
     (case map_of d file_key of Some _ \<Rightarrow> d | None \<Rightarrow> d @ [(file_key, [])])"

text \<open>\<^verbatim>\<open>current_dict[key] = dv\<close> where \<open>current_dict\<close> is the dict stored under
  \<open>file_key\<close>.\<close>

definition setitem_inner :: "'t entries \<Rightarrow> Filename \<Rightarrow> string \<Rightarrow> 't DatedValue \<Rightarrow> 't entries" where
  "setitem_inner d file_key key dv = AList.map_entry file_key (\<lambda>inner. dict_setitem inner key dv) d"

subsection \<open>Load: \<^verbatim>\<open>MetaFile.__init__\<close>\<close>

record 't loop_state =
  loop_data :: "'t entries"
  current_dict :: "Filename option"
  file_time :: "'t option"

definition loop_init :: "'t loop_state" where
  "loop_init = \<lparr>loop_data = [], current_dict = None, file_time = None\<rparr>"

text \<open>The body of \<^verbatim>\<open>for line in f\<close>.\<close>

definition load_line :: "(string \<Rightarrow> 't option) \<Rightarrow> 't loop_state \<Rightarrow> string \<Rightarrow> error + 't loop_state" where
  "load_line fromisoformat st line =
     (if startswith_at line then
        (case unpack2 (split_sep (CHR ''@'') (rstrip_nl (tl line))) of
           Inl e \<Rightarrow> Inl e
         | Inr (file_key, time_str) \<Rightarrow>
             (case fromisoformat time_str of
                None \<Rightarrow> Inl (ValueError InvalidIsoformat)
              | Some t \<Rightarrow>
                  Inr \<lparr>loop_data = setdefault_empty (loop_data st) file_key,
                       current_dict = Some file_key,
                       file_time = Some t\<rparr>))
      else
        (case unpack2 (split_first (CHR ''='') (rstrip_nl line)) of
           Inl e \<Rightarrow> Inl e
         | Inr (key, val) \<Rightarrow>
             (case (current_dict st, file_time st) of
                (Some file_key, Some t) \<Rightarrow>
                  Inr (st\<lparr>loop_data :=
                    setitem_inner (loop_data st) file_key key \<lparr>value_dv = val, time_dv = t\<rparr>\<rparr>)
              | _ \<Rightarrow> Inl (ValueError NotStartingWithAt))))"

fun load_lines :: "(string \<Rightarrow> 't option) \<Rightarrow> 't loop_state \<Rightarrow> string list \<Rightarrow> error + 't loop_state" where
  "load_lines fromisoformat st [] = Inr st"
| "load_lines fromisoformat st (line # rest) =
     (case load_line fromisoformat st line of
        Inl e \<Rightarrow> Inl e
      | Inr st' \<Rightarrow> load_lines fromisoformat st' rest)"

text \<open>The constructor returns the object or raises, and the file as it leaves it.\<close>

definition MetaFile_init ::
  "(string \<Rightarrow> 't option) \<Rightarrow> filesystem \<Rightarrow> (error + 't MetaFile) \<times> filesystem" where
  "MetaFile_init fromisoformat fs =
     (case content fs of
        None \<Rightarrow> (Inr \<lparr>data = [], new_information = []\<rparr>, fs)
      | Some body \<Rightarrow>
          if \<not> can_read fs then (Inl OSError, fs)
          else (case load_lines fromisoformat loop_init (readlines (universal_newlines body)) of
                  Inl e \<Rightarrow> (Inl e, fs)
                | Inr st \<Rightarrow> (Inr \<lparr>data = loop_data st, new_information = []\<rparr>, fs)))"

subsection \<open>\<^verbatim>\<open>add_information\<close>, \<^verbatim>\<open>write\<close>, \<^verbatim>\<open>get\<close>, \<^verbatim>\<open>files\<close>\<close>

definition add_information :: "'t MetaFile \<Rightarrow> 't MetaInformation \<Rightarrow> 't MetaFile" where
  "add_information self info =
     \<lparr>data = fold (\<lambda>(key, val) d.
                setitem_inner d (filename info) key \<lparr>value_dv = val, time_dv = time info\<rparr>)
              (properties info)
              (setdefault_empty (data self) (filename info)),
      new_information = new_information self @ [info]\<rparr>"

text \<open>What \<^verbatim>\<open>write\<close> appends for one pending batch.\<close>

definition render_property :: "string \<times> string \<Rightarrow> string" where
  "render_property kv = fst kv @ CHR ''='' # snd kv @ [LF]"

definition render_info :: "('t \<Rightarrow> string) \<Rightarrow> 't MetaInformation \<Rightarrow> string" where
  "render_info isoformat info =
     CHR ''@'' # filename info @ CHR ''@'' # isoformat (time info) @ [LF]
       @ concat (map render_property (properties info))"

text \<open>\<^verbatim>\<open>MetaFile.write\<close> returns the exception it raises, if any, the object and the file. When
  \<^verbatim>\<open>open(self.path, 'a')\<close> raises, the assignment after the \<^verbatim>\<open>with\<close> block is not reached.
  Opening for appending creates an absent file; text mode on POSIX writes \<^verbatim>\<open>\n\<close> as it is.\<close>

definition MetaFile_write ::
  "('t \<Rightarrow> string) \<Rightarrow> 't MetaFile \<Rightarrow> filesystem \<Rightarrow> error option \<times> 't MetaFile \<times> filesystem" where
  "MetaFile_write isoformat self fs =
     (if new_information self \<noteq> [] then
        (if can_append fs then
           (None,
            self\<lparr>new_information := []\<rparr>,
            fs\<lparr>content := Some ((case content fs of None \<Rightarrow> [] | Some old \<Rightarrow> old)
                    @ concat (map (render_info isoformat) (new_information self)))\<rparr>)
         else (Some OSError, self, fs))
      else (None, self\<lparr>new_information := []\<rparr>, fs))"

definition get :: "'t MetaFile \<Rightarrow> Filename \<Rightarrow> string \<Rightarrow> 't DatedValue option" where
  "get self name key =
     (case map_of (data self) name of
        None \<Rightarrow> None
      | Some file_data \<Rightarrow> map_of file_data key)"

definition files :: "'t MetaFile \<Rightarrow> Filename list" where
  "files self = map fst (data self)"


subsection \<open>The \<^verbatim>\<open>get\<close> and \<^verbatim>\<open>list\<close> actions of \<^verbatim>\<open>main\<close>\<close>

text \<open>What \<^verbatim>\<open>main\<close> hands to \<^verbatim>\<open>print\<close>: in the \<^verbatim>\<open>get\<close> action the result of
  \<^verbatim>\<open>meta.get(obj.name, item) or args.default\<close>, which is the \<^verbatim>\<open>DatedValue\<close> object itself
  when \<^verbatim>\<open>meta.get\<close> finds one (an instance of a dataclass is truthy) and the default string
  when it returns \<^verbatim>\<open>None\<close>.\<close>

datatype 't printed = DatedValueObject "'t DatedValue" | Str string

definition main_get :: "'t MetaFile \<Rightarrow> Filename \<Rightarrow> string list \<Rightarrow> string \<Rightarrow> 't printed list" where
  "main_get meta name items default_value =
     map (\<lambda>item. case get meta name item of
                    Some dv \<Rightarrow> DatedValueObject dv
                  | None \<Rightarrow> Str default_value) items"

text \<open>The \<^verbatim>\<open>list\<close> action prints \<^verbatim>\<open>f'{file}\t{value}'\<close> for each file.\<close>

abbreviation TAB :: char where "TAB \<equiv> CHR 0x09"

definition main_list :: "'t MetaFile \<Rightarrow> string \<Rightarrow> string list" where
  "main_list meta default_value =
     map (\<lambda>file. file @ TAB #
            (case get meta file ''description'' of
               None \<Rightarrow> default_value
             | Some description \<Rightarrow> value_dv description))
         (files meta)"

subsection \<open>Notions used by the statements\<close>

text \<open>The text of the record, an absent file read as the empty text, and its lines as
  the loader sees them.\<close>

definition file_text :: "filesystem \<Rightarrow> string" where
  "file_text fs = (case content fs of None \<Rightarrow> [] | Some body \<Rightarrow> body)"

definition file_lines :: "filesystem \<Rightarrow> string list" where
  "file_lines fs = readlines (universal_newlines (file_text fs))"

text \<open>Text that survives a line of the record: no line break in it.\<close>

definition line_free :: "string \<Rightarrow> bool" where
  "line_free s \<longleftrightarrow> LF \<notin> set s \<and> CR \<notin> set s"

text \<open>A batch that the line format can carry: the object name and the rendered
  timestamp hold no \<^verbatim>\<open>@\<close> and no line break, the timestamp parses back to itself, no key
  holds \<^verbatim>\<open>=\<close> or a line break or starts with \<^verbatim>\<open>@\<close>, and no value holds a line break.\<close>

definition storable_property :: "string \<times> string \<Rightarrow> bool" where
  "storable_property kv \<longleftrightarrow>
     line_free (fst kv) \<and> CHR ''='' \<notin> set (fst kv) \<and> \<not> startswith_at (fst kv) \<and> line_free (snd kv)"

definition storable_info ::
  "('t \<Rightarrow> string) \<Rightarrow> (string \<Rightarrow> 't option) \<Rightarrow> 't MetaInformation \<Rightarrow> bool" where
  "storable_info isoformat fromisoformat info \<longleftrightarrow>
     line_free (filename info) \<and> CHR ''@'' \<notin> set (filename info) \<and>
     line_free (isoformat (time info)) \<and> CHR ''@'' \<notin> set (isoformat (time info)) \<and>
     fromisoformat (isoformat (time info)) = Some (time info) \<and>
     list_all storable_property (properties info)"

text \<open>\<^verbatim>\<open>properties\<close> is a dict: its keys are distinct.\<close>

definition is_dict :: "('k \<times> 'v) list \<Rightarrow> bool" where
  "is_dict d \<longleftrightarrow> distinct (map fst d)"

text \<open>The assignment to \<open>(name, key)\<close> made by the last batch of a sequence that assigns
  to it, with that batch's timestamp.\<close>

fun last_assignment :: "'t MetaInformation list \<Rightarrow> Filename \<Rightarrow> string \<Rightarrow> 't DatedValue option" where
  "last_assignment [] name key = None"
| "last_assignment (b # bs) name key =
     (case last_assignment bs name key of
        Some dv \<Rightarrow> Some dv
      | None \<Rightarrow>
          (if filename b = name
           then map_option (\<lambda>v. \<lparr>value_dv = v, time_dv = time b\<rparr>) (map_of (properties b) key)
           else None))"

text \<open>The elements of a list in the order of their first occurrence.\<close>

fun first_occurrences :: "'a list \<Rightarrow> 'a list" where
  "first_occurrences [] = []"
| "first_occurrences (x # xs) = x # removeAll x (first_occurrences xs)"

text \<open>The object names of the header lines of a record, in file order: the text between
  the two sentinels.\<close>

definition header_names :: "string list \<Rightarrow> Filename list" where
  "header_names lines = map (\<lambda>line. takeWhile (\<lambda>c. c \<noteq> CHR ''@'') (tl line)) (filter startswith_at lines)"

text \<open>The merge that \<^verbatim>\<open>add_information\<close> performs on \<^verbatim>\<open>self.data\<close>.\<close>

definition merge_info :: "'t entries \<Rightarrow> 't MetaInformation \<Rightarrow> 't entries" where
  "merge_info d info = data (add_information \<lparr>data = d, new_information = []\<rparr> info)"

subsection \<open>A concrete timestamp type\<close>

text \<open>
  A naive \<^verbatim>\<open>datetime\<close> as \<^verbatim>\<open>datetime.now()\<close> returns it, with the text
  \<^verbatim>\<open>YYYY-MM-DDTHH:MM:SS[.ffffff]\<close> that \<^verbatim>\<open>isoformat()\<close> gives it. \<open>py_fromisoformat\<close>
  reads exactly that text back; the other spellings that the library accepts are not
  covered, which is why the loader takes the parser as a parameter. These definitions
  supply concrete inputs only.
\<close>

record datetime =
  year :: nat
  month :: nat
  day :: nat
  hour :: nat
  minute :: nat
  second :: nat
  microsecond :: nat

text \<open>A decimal digit, and a number in a fixed count of digits, padded with zeros.\<close>

definition digit :: "nat \<Rightarrow> char" where
  "digit n = ''0123456789'' ! (n mod 10)"

definition zfill2 :: "nat \<Rightarrow> string" where
  "zfill2 n = [digit (n div 10), digit n]"

definition zfill4 :: "nat \<Rightarrow> string" where
  "zfill4 n = zfill2 (n div 100) @ zfill2 n"

definition zfill6 :: "nat \<Rightarrow> string" where
  "zfill6 n = zfill2 (n div 10000) @ zfill4 n"

definition py_isoformat :: "datetime \<Rightarrow> string" where
  "py_isoformat d =
     zfill4 (year d) @ ''-'' @ zfill2 (month d) @ ''-'' @ zfill2 (day d) @ ''T'' @
     zfill2 (hour d) @ '':'' @ zfill2 (minute d) @ '':'' @ zfill2 (second d) @
     (if microsecond d = 0 then [] else ''.'' @ zfill6 (microsecond d))"

definition digit_value :: "char \<Rightarrow> nat option" where
  "digit_value c = map_of (zip ''0123456789'' [0, 1, 2, 3, 4, 5, 6, 7, 8, 9]) c"

fun parse_digits :: "nat \<Rightarrow> string \<Rightarrow> nat option" where
  "parse_digits acc [] = Some acc"
| "parse_digits acc (c # cs) =
     (case digit_value c of
        None \<Rightarrow> None
      | Some n \<Rightarrow> parse_digits (10 * acc + n) cs)"

definition field :: "nat \<Rightarrow> nat \<Rightarrow> string \<Rightarrow> nat option" where
  "field i j s = parse_digits 0 (take (j - i) (drop i s))"

definition days_in_month :: "nat \<Rightarrow> nat \<Rightarrow> nat" where
  "days_in_month y m =
     (if m = 2 then (if y mod 4 = 0 \<and> (y mod 100 \<noteq> 0 \<or> y mod 400 = 0) then 29 else 28)
      else if m = 4 \<or> m = 6 \<or> m = 9 \<or> m = 11 then 30 else 31)"

definition valid_datetime :: "datetime \<Rightarrow> bool" where
  "valid_datetime d \<longleftrightarrow>
     1 \<le> year d \<and> year d \<le> 9999 \<and> 1 \<le> month d \<and> month d \<le> 12 \<and>
     1 \<le> day d \<and> day d \<le> days_in_month (year d) (month d) \<and>
     hour d < 24 \<and> minute d < 60 \<and> second d < 60 \<and> microsecond d < 1000000"

definition py_fromisoformat :: "string \<Rightarrow> datetime option" where
  "py_fromisoformat s =
     (if (length s = 19 \<or> (length s = 26 \<and> s ! 19 = CHR ''.'')) \<and>
         s ! 4 = CHR ''-'' \<and> s ! 7 = CHR ''-'' \<and> s ! 10 = CHR ''T'' \<and>
         s ! 13 = CHR '':'' \<and> s ! 16 = CHR '':''
      then
        Option.bind (field 0 4 s) (\<lambda>y.
        Option.bind (field 5 7 s) (\<lambda>mo.
        Option.bind (field 8 10 s) (\<lambda>d.
        Option.bind (field 11 13 s) (\<lambda>h.
        Option.bind (field 14 16 s) (\<lambda>mi.
        Option.bind (field 17 19 s) (\<lambda>se.
        Option.bind (if length s = 26 then field 20 26 s else Some 0) (\<lambda>us.
          (let d = \<lparr>year = y, month = mo, day = d, hour = h, minute = mi, second = se,
                    microsecond = us\<rparr>
           in if valid_datetime d then Some d else None))))))))
      else None)"

text \<open>Naive datetimes compare field by field, the year first.\<close>

fun lex_less :: "nat list \<Rightarrow> nat list \<Rightarrow> bool" where
  "lex_less (x # xs) (y # ys) = (x < y \<or> (x = y \<and> lex_less xs ys))"
| "lex_less _ _ = False"

definition datetime_less :: "datetime \<Rightarrow> datetime \<Rightarrow> bool" where
  "datetime_less a b =
     lex_less [year a, month a, day a, hour a, minute a, second a, microsecond a]
              [year b, month b, day b, hour b, minute b, second b, microsecond b]"

subsection \<open>Concrete records and batches\<close>

definition ex_t1 :: datetime where
  "ex_t1 = \<lparr>year = 2021, month = 1, day = 1, hour = 0, minute = 0, second = 0, microsecond = 0\<rparr>"

definition ex_t2 :: datetime where
  "ex_t2 = \<lparr>year = 2021, month = 1, day = 2, hour = 0, minute = 0, second = 0, microsecond = 0\<rparr>"

definition ex_early :: "datetime MetaInformation" where
  "ex_early = \<lparr>filename = ''plot.png'', time = ex_t1,
               properties = [(''infra_correction'', ''8.2''), (''origin'', ''run a=8.2'')]\<rparr>"

definition ex_late :: "datetime MetaInformation" where
  "ex_late = \<lparr>filename = ''plot.png'', time = ex_t2,
              properties = [(''infra_correction'', ''9.0'')]\<rparr>"

definition ex_bare :: "datetime MetaInformation" where
  "ex_bare = \<lparr>filename = ''results.csv'', time = ex_t1, properties = []\<rparr>"

definition ex_two_lines :: "datetime MetaInformation" where
  "ex_two_lines = \<lparr>filename = ''results.csv'', time = ex_t1,
                   properties = [(''description'', ''Cleaned'' @ [LF] @ ''data'')]\<rparr>"

definition ex_new :: "datetime MetaFile" where
  "ex_new = \<lparr>data = [], new_information = []\<rparr>"

definition ex_loaded :: "datetime MetaFile" where
  "ex_loaded = \<lparr>data = [(''plot.png'',
                           [(''infra_correction'', \<lparr>value_dv = ''9.0'', time_dv = ex_t2\<rparr>)])],
                new_information = []\<rparr>"

definition ex_absent :: filesystem where
  "ex_absent = \<lparr>content = None, can_read = True, can_append = True\<rparr>"

definition ex_record :: filesystem where
  "ex_record = \<lparr>content = Some (''@plot.png@2021-01-02T00:00:00'' @ [LF] @
                                  ''infra_correction=9.0'' @ [LF]),
                can_read = True, can_append = True\<rparr>"

definition ex_readonly :: filesystem where
  "ex_readonly = \<lparr>content = Some (''@plot.png@2021-01-02T00:00:00'' @ [LF] @
                                    ''infra_correction=9.0'' @ [LF]),
                  can_read = True, can_append = False\<rparr>"

definition ex_headless :: filesystem where
  "ex_headless = \<lparr>content = Some (''description=Cleaned'' @ [LF] @
                                    ''@results.csv@2021-01-01T00:00:00'' @ [LF]),
                  can_read = True, can_append = True\<rparr>"

definition ex_blank_line :: filesystem where
  "ex_blank_line = \<lparr>content = Some (''@results.csv@2021-01-01T00:00:00'' @ [LF] @ [LF] @
                                      ''description=Cleaned'' @ [LF]),
                    can_read = True, can_append = True\<rparr>"

definition ex_directory :: filesystem where
  "ex_directory = \<lparr>content = Some (''@b.csv@2021-01-01T00:00:00'' @ [LF] @
                                     ''description=Cleaned'' @ [LF] @
                                     ''@a.png@2021-01-01T00:00:00'' @ [LF] @
                                     ''origin=lab'' @ [LF] @
                                     ''@b.csv@2021-01-02T00:00:00'' @ [LF] @
                                     ''note=x'' @ [LF]),
                   can_read = True, can_append = True\<rparr>"

definition ex_directory_loaded :: "datetime MetaFile" where
  "ex_directory_loaded =
     \<lparr>data = [(''b.csv'', [(''description'', \<lparr>value_dv = ''Cleaned'', time_dv = ex_t1\<rparr>),
                          (''note'', \<lparr>value_dv = ''x'', time_dv = ex_t2\<rparr>)]),
              (''a.png'', [(''origin'', \<lparr>value_dv = ''lab'', time_dv = ex_t1\<rparr>)])],
      new_information = []\<rparr>"

definition ex_pending :: "datetime MetaInformation list" where
  "ex_pending = [\<lparr>filename = ''c.txt'', time = ex_t2, properties = [(''origin'', ''lab'')]\<rparr>,
                 \<lparr>filename = ''a.png'', time = ex_t2, properties = [(''note'', ''y'')]\<rparr>]"

section \<open>Properties of the operations\<close>

subsection \<open>Lines and splitting\<close>

lemma readlines_line:
  "LF \<notin> set l \<Longrightarrow> readlines (l @ LF # rest) = (l @ [LF]) # readlines rest"
  by (induction l) auto

lemma readlines_Nil_iff: "readlines s = [] \<longleftrightarrow> s = []"
  by (cases s) (auto split: list.splits)

lemma readlines_append:
  "a = [] \<or> last a = LF \<Longrightarrow> readlines (a @ b) = readlines a @ readlines b"
proof (induction a)
  case Nil
  then show ?case by simp
next
  case (Cons c a)
  show ?case
  proof (cases "a = []")
    case True
    with Cons.prems show ?thesis by simp
  next
    case False
    with Cons.prems have "last a = LF" by simp
    with Cons.IH have IH: "readlines (a @ b) = readlines a @ readlines b" by simp
    from False have "readlines a \<noteq> []" by (simp add: readlines_Nil_iff)
    then show ?thesis using IH by (auto split: list.splits)
  qed
qed

lemma universal_newlines_id: "CR \<notin> set s \<Longrightarrow> universal_newlines s = s"
  by (induction s rule: universal_newlines.induct) auto

lemma universal_newlines_append:
  "b = [] \<or> hd b \<noteq> LF \<Longrightarrow> universal_newlines (a @ b) = universal_newlines a @ universal_newlines b"
proof (induction a rule: universal_newlines.induct)
  case 1
  then show ?case by simp
next
  case (2 c)
  then show ?case by (cases b) auto
next
  case (3 c d cs)
  then show ?case by auto
qed

lemma universal_newlines_last:
  "a \<noteq> [] \<Longrightarrow> last a = LF \<Longrightarrow> universal_newlines a \<noteq> [] \<and> last (universal_newlines a) = LF"
  by (induction a rule: universal_newlines.induct) (auto split: if_splits)

lemma load_lines_append:
  "load_lines p st (xs @ ys) =
     (case load_lines p st xs of Inl e \<Rightarrow> Inl e | Inr st' \<Rightarrow> load_lines p st' ys)"
  by (induction xs arbitrary: st) (auto split: sum.splits)

lemma rstrip_nl_line: "LF \<notin> set l \<Longrightarrow> rstrip_nl (l @ [LF]) = l"
  unfolding rstrip_nl_def
  by (cases "rev l") (auto)

lemma split_sep_no: "sep \<notin> set s \<Longrightarrow> split_sep sep s = [s]"
  by (induction s) auto

lemma split_sep_two:
  "sep \<notin> set a \<Longrightarrow> sep \<notin> set b \<Longrightarrow> split_sep sep (a @ sep # b) = [a, b]"
  by (induction a) (auto simp: split_sep_no)

lemma split_first_two:
  "sep \<notin> set k \<Longrightarrow> split_first sep (k @ sep # v) = [k, v]"
proof -
  assume k: "sep \<notin> set k"
  then have "dropWhile (\<lambda>c. c \<noteq> sep) (k @ sep # v) = sep # v"
    by (induction k) auto
  moreover from k have "takeWhile (\<lambda>c. c \<noteq> sep) (k @ sep # v) = k"
    by (induction k) auto
  ultimately show ?thesis by (simp add: split_first_def)
qed

subsection \<open>Loading what \<^verbatim>\<open>write\<close> renders\<close>

lemma startswith_at_Cons [simp]: "startswith_at (c # cs) \<longleftrightarrow> c = CHR ''@''"
  by (simp add: startswith_at_def)

lemma startswith_at_Nil [simp]: "\<not> startswith_at []"
  by (simp add: startswith_at_def)

lemma load_line_header:
  assumes "CHR ''@'' \<notin> set name" "CHR ''@'' \<notin> set ts" "LF \<notin> set name" "LF \<notin> set ts"
    and "p ts = Some t"
  shows "load_line p st (CHR ''@'' # name @ CHR ''@'' # ts @ [LF]) =
           Inr \<lparr>loop_data = setdefault_empty (loop_data st) name,
                current_dict = Some name, file_time = Some t\<rparr>"
proof -
  have "rstrip_nl (name @ CHR ''@'' # ts @ [LF]) = name @ CHR ''@'' # ts"
    using rstrip_nl_line [of "name @ CHR ''@'' # ts"] assms by simp
  then show ?thesis
    using assms by (simp add: load_line_def split_sep_two)
qed

lemma load_line_property:
  assumes "storable_property (k, v)" "current_dict st = Some f" "file_time st = Some t"
  shows "load_line p st (render_property (k, v)) =
           Inr (st\<lparr>loop_data := setitem_inner (loop_data st) f k \<lparr>value_dv = v, time_dv = t\<rparr>\<rparr>)"
proof -
  from assms(1) have k: "CHR ''='' \<notin> set k" "LF \<notin> set k" "\<not> startswith_at k" and v: "LF \<notin> set v"
    by (simp_all add: storable_property_def line_free_def)
  have "rstrip_nl ((k @ CHR ''='' # v) @ [LF]) = k @ CHR ''='' # v"
    by (rule rstrip_nl_line) (use k v in auto)
  moreover have "\<not> startswith_at (k @ CHR ''='' # v @ [LF])"
    using k(3) by (cases k) auto
  ultimately show ?thesis
    using k assms(2,3) by (simp add: load_line_def render_property_def split_first_two)
qed

lemma readlines_properties:
  "list_all storable_property props \<Longrightarrow>
   readlines (concat (map render_property props)) = map render_property props"
proof (induction props)
  case Nil
  then show ?case by simp
next
  case (Cons kv props)
  then have "LF \<notin> set (fst kv @ CHR ''='' # snd kv)"
    by (auto simp: storable_property_def line_free_def)
  from readlines_line [OF this, of "concat (map render_property props)"]
  have "readlines (render_property kv @ concat (map render_property props)) =
      render_property kv # readlines (concat (map render_property props))"
    by (simp add: render_property_def)
  with Cons show ?case by simp
qed

lemma load_lines_properties:
  "list_all storable_property props \<Longrightarrow> current_dict st = Some f \<Longrightarrow> file_time st = Some t \<Longrightarrow>
   load_lines p st (map render_property props) =
     Inr (st\<lparr>loop_data :=
       fold (\<lambda>(key, val) d. setitem_inner d f key \<lparr>value_dv = val, time_dv = t\<rparr>) props (loop_data st)\<rparr>)"
proof (induction props arbitrary: st)
  case Nil
  then show ?case by simp
next
  case (Cons kv props)
  obtain k v where kv: "kv = (k, v)" by (cases kv)
  from Cons.prems kv have "storable_property (k, v)" by simp
  from load_line_property [OF this Cons.prems(2,3), of p]
  have step: "load_line p st (render_property kv) =
      Inr (st\<lparr>loop_data := setitem_inner (loop_data st) f k \<lparr>value_dv = v, time_dv = t\<rparr>\<rparr>)"
    by (simp add: kv)
  from Cons.prems have "list_all storable_property props" by simp
  from Cons.IH [OF this, of "st\<lparr>loop_data := setitem_inner (loop_data st) f k \<lparr>value_dv = v, time_dv = t\<rparr>\<rparr>"]
    Cons.prems(2,3) step
  show ?case by (simp add: kv)
qed

lemma data_add_information: "data (add_information self info) = merge_info (data self) info"
  by (simp add: merge_info_def add_information_def)

lemma load_lines_render_info:
  assumes "storable_info isoformat p info"
  shows "load_lines p st (readlines (render_info isoformat info)) =
           Inr \<lparr>loop_data = merge_info (loop_data st) info,
                current_dict = Some (filename info), file_time = Some (time info)\<rparr>"
proof -
  from assms have hdr: "CHR ''@'' \<notin> set (filename info)" "CHR ''@'' \<notin> set (isoformat (time info))"
      "LF \<notin> set (filename info)" "LF \<notin> set (isoformat (time info))" "p (isoformat (time info)) = Some (time info)"
    and props: "list_all storable_property (properties info)"
    by (simp_all add: storable_info_def line_free_def)
  let ?h = "CHR ''@'' # filename info @ CHR ''@'' # isoformat (time info)"
  have "LF \<notin> set ?h" using hdr by simp
  from readlines_line [OF this, of "concat (map render_property (properties info))"]
  have lines: "readlines (render_info isoformat info) =
      (?h @ [LF]) # map render_property (properties info)"
    by (simp add: render_info_def readlines_properties [OF props])
  show ?thesis
    unfolding lines
    using load_line_header [of "filename info" "isoformat (time info)" p "time info" st, OF hdr]
      load_lines_properties [OF props, of "\<lparr>loop_data = setdefault_empty (loop_data st) (filename info),
                current_dict = Some (filename info), file_time = Some (time info)\<rparr>" "filename info" "time info" p]
    by (simp add: merge_info_def add_information_def)
qed

lemma render_property_last: "render_property kv \<noteq> [] \<and> last (render_property kv) = LF"
  by (simp add: render_property_def)

lemma concat_render_property_last:
  "props \<noteq> [] \<longrightarrow> concat (map render_property props) \<noteq> [] \<and>
     last (concat (map render_property props)) = LF"
proof (cases props rule: rev_cases)
  case Nil
  then show ?thesis by simp
next
  case (snoc xs x)
  then show ?thesis by (simp add: render_property_def)
qed

lemma render_info_last:
  "render_info isoformat info \<noteq> [] \<and> last (render_info isoformat info) = LF"
proof (cases "properties info = []")
  case True
  then show ?thesis by (simp add: render_info_def)
next
  case False
  with concat_render_property_last [of "properties info"] show ?thesis
    by (simp add: render_info_def)
qed

lemma render_info_hd: "hd (render_info isoformat info) = CHR ''@''"
  by (simp add: render_info_def)

lemma render_property_no_CR: "storable_property kv \<Longrightarrow> CR \<notin> set (render_property kv)"
  by (simp add: storable_property_def line_free_def render_property_def)

lemma render_info_no_CR:
  assumes "storable_info isoformat p info"
  shows "CR \<notin> set (render_info isoformat info)"
proof -
  from assms have "list_all storable_property (properties info)"
    by (simp add: storable_info_def)
  then have "CR \<notin> set (concat (map render_property (properties info)))"
    by (induction "properties info" arbitrary: info) (auto simp: list_all_iff render_property_no_CR)
  with assms show ?thesis
    by (simp add: storable_info_def line_free_def render_info_def)
qed

lemma load_lines_rendered:
  "list_all (storable_info isoformat p) infos \<Longrightarrow>
   \<exists>st'. load_lines p st (readlines (concat (map (render_info isoformat) infos))) = Inr st' \<and>
         loop_data st' = foldl merge_info (loop_data st) infos"
proof (induction infos arbitrary: st)
  case Nil
  then show ?case by simp
next
  case (Cons info infos)
  let ?st1 = "\<lparr>loop_data = merge_info (loop_data st) info,
                current_dict = Some (filename info), file_time = Some (time info)\<rparr>"
  from Cons.prems have one: "storable_info isoformat p info"
    and rest: "list_all (storable_info isoformat p) infos" by simp_all
  have "readlines (concat (map (render_info isoformat) (info # infos))) =
      readlines (render_info isoformat info) @ readlines (concat (map (render_info isoformat) infos))"
    using readlines_append [of "render_info isoformat info"] render_info_last [of isoformat info]
    by simp
  moreover from Cons.IH [OF rest, of ?st1] obtain st' where
    "load_lines p ?st1 (readlines (concat (map (render_info isoformat) infos))) = Inr st'"
    "loop_data st' = foldl merge_info (loop_data ?st1) infos" by blast
  ultimately show ?case
    using load_lines_render_info [OF one, of st]
    by (simp add: load_lines_append)
qed

lemma rendered_hd_no_CR:
  assumes "list_all (storable_info isoformat p) infos"
  shows "(concat (map (render_info isoformat) infos) = [] \<or>
          hd (concat (map (render_info isoformat) infos)) \<noteq> LF) \<and>
         CR \<notin> set (concat (map (render_info isoformat) infos))"
proof (cases infos)
  case Nil
  then show ?thesis by simp
next
  case (Cons info rest)
  have "hd (concat (map (render_info isoformat) infos)) = CHR ''@''"
    using render_info_last [of isoformat info] render_info_hd [of isoformat info]
    by (simp add: Cons)
  moreover have "CR \<notin> set (concat (map (render_info isoformat) infos))"
    using assms by (auto simp: list_all_iff render_info_no_CR)
  ultimately show ?thesis by simp
qed

lemma lines_of_appended:
  assumes "old = [] \<or> last old = LF" "list_all (storable_info isoformat p) infos"
  shows "readlines (universal_newlines (old @ concat (map (render_info isoformat) infos))) =
         readlines (universal_newlines old) @ readlines (concat (map (render_info isoformat) infos))"
proof -
  let ?new = "concat (map (render_info isoformat) infos)"
  from rendered_hd_no_CR [OF assms(2)]
  have "universal_newlines (old @ ?new) = universal_newlines old @ ?new"
    by (simp add: universal_newlines_append universal_newlines_id)
  moreover have "universal_newlines old = [] \<or> last (universal_newlines old) = LF"
    using assms(1) universal_newlines_last [of old] by (cases "old = []") auto
  ultimately show ?thesis by (simp add: readlines_append)
qed

lemma MetaFile_init_loaded:
  assumes "fst (MetaFile_init p fs) = Inr self"
  shows "\<exists>st. load_lines p loop_init (file_lines fs) = Inr st \<and> loop_data st = data self \<and>
              new_information self = []"
  using assms
  by (auto simp: MetaFile_init_def file_lines_def file_text_def loop_init_def
           split: option.splits if_splits sum.splits)

lemma MetaFile_init_present:
  assumes "content fs = Some text" "can_read fs"
    and "load_lines p loop_init (readlines (universal_newlines text)) = Inr st"
  shows "MetaFile_init p fs = (Inr \<lparr>data = loop_data st, new_information = []\<rparr>, fs)"
  using assms by (simp add: MetaFile_init_def)

lemma reload_after_append:
  assumes "fst (MetaFile_init p fs) = Inr self"
    and "list_all (storable_info isoformat p) infos"
    and "file_text fs = [] \<or> last (file_text fs) = LF"
    and "can_read fs'" "content fs' = Some (file_text fs @ concat (map (render_info isoformat) infos))"
  shows "fst (MetaFile_init p fs') = Inr \<lparr>data = foldl merge_info (data self) infos, new_information = []\<rparr>"
proof -
  from MetaFile_init_loaded [OF assms(1)] obtain st where
    st: "load_lines p loop_init (file_lines fs) = Inr st" "loop_data st = data self" by blast
  from load_lines_rendered [OF assms(2), of st] obtain st' where
    st': "load_lines p st (readlines (concat (map (render_info isoformat) infos))) = Inr st'"
      "loop_data st' = foldl merge_info (loop_data st) infos" by blast
  have "load_lines p loop_init
      (readlines (universal_newlines (file_text fs @ concat (map (render_info isoformat) infos)))) = Inr st'"
    using st(1) st'(1)
    by (simp add: lines_of_appended [OF assms(3,2)] load_lines_append file_lines_def)
  from MetaFile_init_present [OF assms(5,4) this] st'(2) st(2)
  show ?thesis by simp
qed

subsection \<open>Lookups after a merge\<close>

lemma map_of_setdefault_empty:
  "map_of (setdefault_empty d f) =
     (case map_of d f of None \<Rightarrow> (map_of d)(f \<mapsto> []) | Some _ \<Rightarrow> map_of d)"
  by (auto simp: setdefault_empty_def map_add_def fun_eq_iff split: option.splits)

lemma map_of_setitem_inner:
  "map_of (setitem_inner d f k dv) =
     (case map_of d f of None \<Rightarrow> map_of d | Some inner \<Rightarrow> (map_of d)(f \<mapsto> AList.update k dv inner))"
  by (auto simp: setitem_inner_def dict_setitem_def map_of_map_entry fun_eq_iff split: option.splits)

lemma map_of_fold_setitem_inner:
  "map_of d f = Some inner \<Longrightarrow>
   map_of (fold (\<lambda>(key, val) d. setitem_inner d f key (g val)) props d) =
     (map_of d)(f \<mapsto> fold (\<lambda>(key, val). AList.update key (g val)) props inner)"
proof (induction props arbitrary: d inner)
  case Nil
  then show ?case by (auto simp: fun_eq_iff)
next
  case (Cons kv props)
  obtain k v where kv: "kv = (k, v)" by (cases kv)
  have "map_of (setitem_inner d f k (g v)) f = Some (AList.update k (g v) inner)"
    using Cons.prems by (simp add: map_of_setitem_inner)
  from Cons.IH [OF this] Cons.prems show ?case
    by (simp add: kv map_of_setitem_inner fun_eq_iff)
qed

lemma map_of_fold_update:
  "distinct (map fst props) \<Longrightarrow>
   map_of (fold (\<lambda>(key, val). AList.update key (g val)) props inner) k =
     (case map_of props k of Some v \<Rightarrow> Some (g v) | None \<Rightarrow> map_of inner k)"
proof (induction props arbitrary: inner)
  case Nil
  then show ?case by simp
next
  case (Cons kv props)
  obtain k' v' where kv: "kv = (k', v')" by (cases kv)
  from Cons.prems kv have "map_of props k' = None" and d: "distinct (map fst props)"
    by (auto simp: map_of_eq_None_iff)
  with Cons.IH [OF d, of "AList.update k' (g v') inner"] show ?case
    by (auto simp: kv update_conv' split: option.splits)
qed

lemma get_add_information:
  assumes "is_dict (properties info)"
  shows "get (add_information self info) name key =
           (if filename info = name
            then (case map_of (properties info) key of
                    Some v \<Rightarrow> Some \<lparr>value_dv = v, time_dv = time info\<rparr>
                  | None \<Rightarrow> get self name key)
            else get self name key)"
proof -
  let ?d1 = "setdefault_empty (data self) (filename info)"
  let ?inner = "case map_of (data self) (filename info) of None \<Rightarrow> [] | Some i \<Rightarrow> i"
  have d1: "map_of ?d1 (filename info) = Some ?inner"
    by (simp add: map_of_setdefault_empty split: option.splits)
  have d1': "name \<noteq> filename info \<Longrightarrow> map_of ?d1 name = map_of (data self) name" for name
    by (simp add: map_of_setdefault_empty split: option.splits)
  have "map_of (data (add_information self info)) =
      (map_of ?d1)(filename info \<mapsto>
        fold (\<lambda>(key, val). AList.update key \<lparr>value_dv = val, time_dv = time info\<rparr>)
          (properties info) ?inner)"
    using map_of_fold_setitem_inner [OF d1, of "\<lambda>val. \<lparr>value_dv = val, time_dv = time info\<rparr>" "properties info"]
    by (simp add: add_information_def)
  then show ?thesis
    using assms d1' [of name]
    by (auto simp: get_def is_dict_def map_of_fold_update split: option.splits)
qed

lemma get_foldl_add_information:
  "list_all (\<lambda>b. is_dict (properties b)) pend \<Longrightarrow>
   get (foldl add_information self pend) name key =
     (case last_assignment pend name key of Some dv \<Rightarrow> Some dv | None \<Rightarrow> get self name key)"
proof (induction pend arbitrary: self)
  case Nil
  then show ?case by simp
next
  case (Cons b bs)
  then have "is_dict (properties b)" "list_all (\<lambda>b. is_dict (properties b)) bs" by simp_all
  from Cons.IH [OF this(2), of "add_information self b"] get_add_information [OF this(1), of self name key]
  show ?case by (auto split: option.splits)
qed

lemma last_assignment_append:
  "last_assignment (xs @ ys) name key =
     (case last_assignment ys name key of Some dv \<Rightarrow> Some dv | None \<Rightarrow> last_assignment xs name key)"
  by (induction xs) (auto split: option.splits)

lemma data_foldl_add_information:
  "data (foldl add_information self infos) = foldl merge_info (data self) infos"
  by (induction infos arbitrary: self) (simp_all add: data_add_information)

lemma get_cong_data: "data a = data b \<Longrightarrow> get a name key = get b name key"
  by (simp add: get_def)

lemma MetaFile_init_absent:
  "content fs = None \<Longrightarrow> MetaFile_init p fs = (Inr \<lparr>data = [], new_information = []\<rparr>, fs)"
  by (simp add: MetaFile_init_def)

lemma MetaFile_init_rendered:
  assumes "list_all (storable_info isoformat p) hist"
    and "file_text fs = concat (map (render_info isoformat) hist)" and "can_read fs"
  shows "fst (MetaFile_init p fs) =
           Inr \<lparr>data = foldl merge_info [] hist, new_information = []\<rparr>"
proof (cases "content fs")
  case None
  with assms(2) have "concat (map (render_info isoformat) hist) = []"
    by (simp add: file_text_def)
  then have "hist = []"
    using render_info_last [of isoformat] by (cases hist) auto
  with None show ?thesis by (simp add: MetaFile_init_absent)
next
  case (Some old)
  let ?fs0 = "\<lparr>content = None, can_read = True, can_append = True\<rparr>"
  have init0: "fst (MetaFile_init p ?fs0) = Inr \<lparr>data = [], new_information = []\<rparr>"
    by (simp add: MetaFile_init_absent)
  have "fst (MetaFile_init p fs) =
      Inr \<lparr>data = foldl merge_info (data \<lparr>data = [], new_information = []\<rparr>) hist, new_information = []\<rparr>"
    using Some assms(2,3)
    by (intro reload_after_append [OF init0 assms(1)]) (simp_all add: file_text_def)
  then show ?thesis by simp
qed

subsection \<open>The order of the object names\<close>

lemma map_fst_map_entry: "map fst (AList.map_entry k f xs) = map fst xs"
  by (induction xs) auto

lemma map_fst_setitem_inner: "map fst (setitem_inner d f k dv) = map fst d"
  by (simp add: setitem_inner_def map_fst_map_entry)

lemma map_fst_setdefault_empty:
  "map fst (setdefault_empty d f) = (if f \<in> set (map fst d) then map fst d else map fst d @ [f])"
  by (auto simp: setdefault_empty_def map_of_eq_None_iff split: option.splits
           dest: map_of_SomeD intro: rev_image_eqI)

lemma map_fst_fold_setitem_inner:
  "map fst (fold (\<lambda>(key, val) d. setitem_inner d f key (g val)) props d) = map fst d"
  by (induction props arbitrary: d) (auto simp: map_fst_setitem_inner)

lemma map_fst_merge_info:
  "map fst (merge_info d info) =
     (if filename info \<in> set (map fst d) then map fst d else map fst d @ [filename info])"
  unfolding merge_info_def add_information_def
  using map_fst_fold_setitem_inner [of "filename info" "\<lambda>val. \<lparr>value_dv = val, time_dv = time info\<rparr>"]
  by (simp add: map_fst_setdefault_empty)

lemma set_first_occurrences: "set (first_occurrences xs) = set xs"
  by (induction xs) auto

lemma first_occurrences_snoc:
  "first_occurrences (xs @ [x]) =
     (if x \<in> set xs then first_occurrences xs else first_occurrences xs @ [x])"
  by (induction xs) auto

lemma rstrip_nl_prefix: "\<exists>tail. s = rstrip_nl s @ tail \<and> set tail \<subseteq> {LF}"
proof -
  have "rev s = takeWhile (\<lambda>c. c = LF) (rev s) @ dropWhile (\<lambda>c. c = LF) (rev s)" by simp
  then have "s = rstrip_nl s @ rev (takeWhile (\<lambda>c. c = LF) (rev s))"
    unfolding rstrip_nl_def by (metis rev_append rev_rev_ident)
  moreover have "set (rev (takeWhile (\<lambda>c. c = LF) (rev s))) \<subseteq> {LF}"
    by (auto dest: set_takeWhileD)
  ultimately show ?thesis by blast
qed

lemma set_rstrip_nl: "c \<noteq> LF \<Longrightarrow> c \<in> set (rstrip_nl s) \<longleftrightarrow> c \<in> set s"
proof -
  assume c: "c \<noteq> LF"
  obtain tail where "s = rstrip_nl s @ tail" "set tail \<subseteq> {LF}"
    using rstrip_nl_prefix by blast
  then have "set s = set (rstrip_nl s) \<union> set tail" by (metis set_append)
  with \<open>set tail \<subseteq> {LF}\<close> c show ?thesis by auto
qed

lemma split_sep_nonempty: "split_sep sep s \<noteq> []"
  by (induction s) (auto split: list.splits)

lemma split_sep_hd: "split_sep sep s = a # rest \<Longrightarrow> rest \<noteq> [] \<Longrightarrow> a = takeWhile (\<lambda>c. c \<noteq> sep) s \<and> sep \<in> set s"
proof (induction s arbitrary: a rest)
  case Nil
  then show ?case by simp
next
  case (Cons c s)
  show ?case
  proof (cases "c = sep")
    case True
    with Cons.prems show ?thesis by simp
  next
    case False
    with Cons.prems obtain p where p: "split_sep sep s = p # rest" "a = c # p"
      by (auto split: list.splits simp: split_sep_nonempty)
    from Cons.IH [OF p(1) Cons.prems(2)] p(2) False show ?thesis by simp
  qed
qed

lemma header_key:
  assumes "unpack2 (split_sep (CHR ''@'') (rstrip_nl s)) = Inr (file_key, ts)"
  shows "file_key = takeWhile (\<lambda>c. c \<noteq> CHR ''@'') s"
proof -
  from assms have parts: "split_sep (CHR ''@'') (rstrip_nl s) = [file_key, ts]"
    by (cases "split_sep (CHR ''@'') (rstrip_nl s)" rule: unpack2.cases) auto
  from split_sep_hd [OF parts] have k: "file_key = takeWhile (\<lambda>c. c \<noteq> CHR ''@'') (rstrip_nl s)"
    and at: "CHR ''@'' \<in> set (rstrip_nl s)" by simp_all
  obtain tail where s: "s = rstrip_nl s @ tail" using rstrip_nl_prefix by blast
  from at have "takeWhile (\<lambda>c. c \<noteq> CHR ''@'') (rstrip_nl s @ tail) =
      takeWhile (\<lambda>c. c \<noteq> CHR ''@'') (rstrip_nl s)"
    by (intro takeWhile_append1 [of "CHR ''@''"]) simp_all
  with k s show ?thesis by metis
qed

lemma load_line_names:
  assumes "load_line p st line = Inr st'" "map fst (loop_data st) = first_occurrences ns"
  shows "map fst (loop_data st') = first_occurrences (ns @ header_names [line])"
proof (cases "startswith_at line")
  case True
  with assms(1) obtain file_key ts t where
    u: "unpack2 (split_sep (CHR ''@'') (rstrip_nl (tl line))) = Inr (file_key, ts)"
    and st': "st' = \<lparr>loop_data = setdefault_empty (loop_data st) file_key,
                     current_dict = Some file_key, file_time = Some t\<rparr>"
    by (auto simp: load_line_def split: sum.splits option.splits)
  from header_key [OF u] have "header_names [line] = [file_key]"
    using True by (simp add: header_names_def)
  with st' assms(2) show ?thesis
    by (simp add: map_fst_setdefault_empty first_occurrences_snoc set_first_occurrences
        flip: set_map)
next
  case False
  with assms(1) have "map fst (loop_data st') = map fst (loop_data st)"
    by (auto simp: load_line_def map_fst_setitem_inner split: sum.splits option.splits)
  with False assms(2) show ?thesis by (simp add: header_names_def)
qed

lemma header_names_Cons: "header_names (line # rest) = header_names [line] @ header_names rest"
  by (simp add: header_names_def)

lemma load_lines_names:
  "load_lines p st lines = Inr st' \<Longrightarrow> map fst (loop_data st) = first_occurrences ns \<Longrightarrow>
   map fst (loop_data st') = first_occurrences (ns @ header_names lines)"
proof (induction lines arbitrary: st ns)
  case Nil
  then show ?case by (simp add: header_names_def)
next
  case (Cons line rest)
  from Cons.prems(1) obtain st1 where st1: "load_line p st line = Inr st1"
    "load_lines p st1 rest = Inr st'" by (auto split: sum.splits)
  from Cons.IH [OF st1(2) load_line_names [OF st1(1) Cons.prems(2)]]
  show ?case by (simp add: header_names_Cons [of line rest])
qed

lemma merged_names:
  "map fst d = first_occurrences ns \<Longrightarrow>
   map fst (foldl merge_info d infos) = first_occurrences (ns @ map filename infos)"
proof (induction infos arbitrary: d ns)
  case Nil
  then show ?case by simp
next
  case (Cons info infos)
  have "map fst (merge_info d info) = first_occurrences (ns @ [filename info])"
    using Cons.prems
    by (simp add: map_fst_merge_info first_occurrences_snoc set_first_occurrences flip: set_map)
  from Cons.IH [OF this] show ?case by simp
qed

subsection \<open>Lines that make loading fail\<close>

lemma split_first_without: "sep \<notin> set s \<Longrightarrow> split_first sep s = [s]"
proof -
  assume "sep \<notin> set s"
  then have none: "dropWhile (\<lambda>c. c \<noteq> sep) s = []" by auto
  show ?thesis unfolding split_first_def none by simp
qed

lemma split_first_with: "sep \<in> set s \<Longrightarrow> \<exists>a b. split_first sep s = [a, b]"
proof -
  assume "sep \<in> set s"
  then have "dropWhile (\<lambda>c. c \<noteq> sep) s \<noteq> []" by simp
  then show ?thesis by (auto simp: split_first_def split: list.splits)
qed

lemma load_line_without_equals:
  assumes "\<not> startswith_at line" "CHR ''='' \<notin> set line"
  shows "load_line p st line = Inl (ValueError NotEnoughValues)"
proof -
  from assms(2) have "CHR ''='' \<notin> set (rstrip_nl line)" by (simp add: set_rstrip_nl)
  from split_first_without [OF this] assms(1) show ?thesis
    by (simp add: load_line_def)
qed

lemma load_line_no_context:
  assumes "\<not> startswith_at line" "CHR ''='' \<in> set line" "current_dict st = None"
  shows "load_line p st line = Inl (ValueError NotStartingWithAt)"
proof -
  from assms(2) have "CHR ''='' \<in> set (rstrip_nl line)" by (simp add: set_rstrip_nl)
  from split_first_with [OF this] obtain a b where
    "split_first (CHR ''='') (rstrip_nl line) = [a, b]" by blast
  with assms(1,3) show ?thesis by (simp add: load_line_def)
qed

lemma MetaFile_init_lines:
  assumes "content fs = Some body" "can_read fs"
  shows "fst (MetaFile_init p fs) =
           (case load_lines p loop_init (file_lines fs) of
              Inl e \<Rightarrow> Inl e
            | Inr st \<Rightarrow> Inr \<lparr>data = loop_data st, new_information = []\<rparr>)"
  using assms by (simp add: MetaFile_init_def file_lines_def file_text_def split: sum.splits)

lemma MetaFile_init_frame: "snd (MetaFile_init p fs) = fs"
  by (simp add: MetaFile_init_def split: option.splits sum.splits)

lemma first_line_not_header:
  assumes "content fs = Some body" and "can_read fs"
    and "file_lines fs = line # rest" and "\<not> startswith_at line"
  shows "MetaFile_init fromisoformat fs =
           (Inl (ValueError (if CHR ''='' \<in> set line then NotStartingWithAt else NotEnoughValues)), fs)"
proof -
  have "load_line fromisoformat loop_init line =
      Inl (ValueError (if CHR ''='' \<in> set line then NotStartingWithAt else NotEnoughValues))"
    using assms(4) load_line_without_equals [of line fromisoformat loop_init]
      load_line_no_context [of line loop_init fromisoformat]
    by (simp add: loop_init_def)
  then have "fst (MetaFile_init fromisoformat fs) =
      Inl (ValueError (if CHR ''='' \<in> set line then NotStartingWithAt else NotEnoughValues))"
    by (simp add: MetaFile_init_lines [OF assms(1,2)] assms(3))
  with MetaFile_init_frame [of fromisoformat fs] show ?thesis
    by (metis prod.collapse)
qed

subsection \<open>The concrete records evaluated\<close>

lemma py_isoformat_ex [simp]:
  "py_isoformat ex_t1 = ''2021-01-01T00:00:00''"
  "py_isoformat ex_t2 = ''2021-01-02T00:00:00''"
  by (simp_all add: ex_t1_def ex_t2_def py_isoformat_def digit_def zfill2_def zfill4_def)

lemma py_fromisoformat_ex [simp]:
  "py_fromisoformat ''2021-01-01T00:00:00'' = Some ex_t1"
  "py_fromisoformat ''2021-01-02T00:00:00'' = Some ex_t2"
  by (simp_all add: ex_t1_def ex_t2_def py_fromisoformat_def field_def digit_value_def
      valid_datetime_def days_in_month_def)

lemmas load_eval = MetaFile_init_def load_line_def startswith_at_def rstrip_nl_def split_first_def
  setdefault_empty_def setitem_inner_def dict_setitem_def loop_init_def

lemma init_ex_record: "MetaFile_init py_fromisoformat ex_record = (Inr ex_loaded, ex_record)"
  by (simp add: ex_record_def ex_loaded_def load_eval)

lemma init_ex_directory: "MetaFile_init py_fromisoformat ex_directory = (Inr ex_directory_loaded, ex_directory)"
  by (simp add: ex_directory_def ex_directory_loaded_def load_eval)

lemma storable_ex:
  "storable_info py_isoformat py_fromisoformat ex_early"
  "storable_info py_isoformat py_fromisoformat ex_late"
  "storable_info py_isoformat py_fromisoformat ex_bare"
  by (simp_all add: storable_info_def storable_property_def line_free_def startswith_at_def
      ex_early_def ex_late_def ex_bare_def)

section \<open>The claims\<close>

subsection \<open>C1: which assignment \<open>get\<close> returns\<close>

text \<open>
  C1 says that of two batches assigning the same (object, key) pair, \<^verbatim>\<open>get\<close> returns the
  value of the one with the later timestamp, whatever their order. Neither the loader nor
  \<^verbatim>\<open>add_information\<close> compares timestamps: each assignment overwrites the entry. What holds
  is this. Let the record hold the batches \<open>hist\<close> as \<^verbatim>\<open>write\<close> renders them, and let
  \<open>pend\<close> be added after loading. Then \<^verbatim>\<open>get\<close> returns the value, and the timestamp, of
  the last batch of \<open>hist @ pend\<close> that assigns the pair: file order first, then the order
  of the adds, whatever the timestamps are.
\<close>

theorem last_batch_in_order_wins:
  assumes "list_all (storable_info isoformat fromisoformat) hist"
    and "list_all (\<lambda>b. is_dict (properties b)) (hist @ pend)"
    and "file_text fs = concat (map (render_info isoformat) hist)" and "can_read fs"
  shows "\<exists>self. fst (MetaFile_init fromisoformat fs) = Inr self \<and>
           get (foldl add_information self pend) name key = last_assignment (hist @ pend) name key"
proof -
  let ?empty = "\<lparr>data = [], new_information = []\<rparr> :: 'a MetaFile"
  let ?self = "\<lparr>data = foldl merge_info [] hist, new_information = []\<rparr>"
  from assms(2) have dh: "list_all (\<lambda>b. is_dict (properties b)) hist"
    and dp: "list_all (\<lambda>b. is_dict (properties b)) pend" by simp_all
  have "data ?self = data (foldl add_information ?empty hist)"
    by (simp add: data_foldl_add_information)
  then have "get ?self name key = get (foldl add_information ?empty hist) name key"
    by (rule get_cong_data)
  also have "\<dots> = last_assignment hist name key"
  proof -
    have "get ?empty name key = None" by (simp add: get_def)
    then show ?thesis
      by (cases "last_assignment hist name key") (simp_all add: get_foldl_add_information [OF dh])
  qed
  finally have "get (foldl add_information ?self pend) name key = last_assignment (hist @ pend) name key"
    by (simp add: get_foldl_add_information [OF dp] last_assignment_append split: option.splits)
  with MetaFile_init_rendered [OF assms(1,3,4)] show ?thesis by blast
qed

text \<open>The later batch is in the record, the earlier one is added afterwards: the earlier
  value is returned.\<close>

theorem last_batch_in_order_wins_witness:
  "list_all (storable_info py_isoformat py_fromisoformat) [ex_late] \<and>
   list_all (\<lambda>b. is_dict (properties b)) ([ex_late] @ [ex_early]) \<and>
   file_text ex_record = concat (map (render_info py_isoformat) [ex_late]) \<and>
   can_read ex_record \<and>
   (\<exists>self. fst (MetaFile_init py_fromisoformat ex_record) = Inr self \<and>
      get (foldl add_information self [ex_early]) ''plot.png'' ''infra_correction'' =
        Some \<lparr>value_dv = ''8.2'', time_dv = ex_t1\<rparr>)"
proof -
  have h1: "list_all (storable_info py_isoformat py_fromisoformat) [ex_late]"
    by (simp add: storable_ex)
  have h2: "list_all (\<lambda>b. is_dict (properties b)) ([ex_late] @ [ex_early])"
    by (simp add: is_dict_def ex_late_def ex_early_def)
  have h3: "file_text ex_record = concat (map (render_info py_isoformat) [ex_late])"
    by (simp add: file_text_def ex_record_def render_info_def render_property_def ex_late_def)
  have h4: "can_read ex_record"
    by (simp add: ex_record_def)
  have "last_assignment ([ex_late] @ [ex_early]) ''plot.png'' ''infra_correction'' =
      Some \<lparr>value_dv = ''8.2'', time_dv = ex_t1\<rparr>"
    by (simp add: ex_late_def ex_early_def)
  with last_batch_in_order_wins [OF h1 h2 h3 h4, of "''plot.png''" "''infra_correction''"]
    h1 h2 h3 h4
  show ?thesis by simp
qed

text \<open>Against C1 as stated: \<open>ex_late\<close> carries the later timestamp and the value
  \<^verbatim>\<open>9.0\<close>; added before \<open>ex_early\<close>, it loses to the value \<^verbatim>\<open>8.2\<close>.\<close>

theorem later_timestamp_counterexample:
  "datetime_less (time ex_early) (time ex_late) \<and>
   map_of (properties ex_late) ''infra_correction'' = Some ''9.0'' \<and>
   get (add_information (add_information ex_new ex_late) ex_early) ''plot.png'' ''infra_correction'' =
     Some \<lparr>value_dv = ''8.2'', time_dv = time ex_early\<rparr>"
  by (simp add: datetime_less_def ex_early_def ex_late_def ex_t1_def ex_t2_def ex_new_def
      get_def add_information_def setdefault_empty_def setitem_inner_def dict_setitem_def)

subsection \<open>C2: writing a batch and loading the record again\<close>

text \<open>
  C2 says that for every batch (object name without \<^verbatim>\<open>@\<close>, keys without \<^verbatim>\<open>=\<close>, any values)
  a fresh store loaded after add and flush has the entries of the store in memory. The line
  format has no escaping, so this fails for a value that holds a line break. What holds is
  this. Let the store be loaded from a record that is absent, empty or ends with a newline,
  and let the batch be storable: no line break in the object name, the keys and the values,
  no \<^verbatim>\<open>@\<close> in the object name, no \<^verbatim>\<open>=\<close> in a key and no key starting with \<^verbatim>\<open>@\<close>, and a
  timestamp whose rendering holds no \<^verbatim>\<open>@\<close> and no line break and parses back to the
  timestamp. Then the flush succeeds, and loading the record again gives exactly the entries
  in memory after the add, values containing \<^verbatim>\<open>=\<close> included.
\<close>

theorem write_then_reload:
  assumes "fst (MetaFile_init fromisoformat fs) = Inr self"
    and "storable_info isoformat fromisoformat info"
    and "file_text fs = [] \<or> last (file_text fs) = LF"
    and "can_read fs" and "can_append fs"
  shows "fst (MetaFile_write isoformat (add_information self info) fs) = None \<and>
         fst (MetaFile_init fromisoformat
                (snd (snd (MetaFile_write isoformat (add_information self info) fs)))) =
           Inr \<lparr>data = data (add_information self info), new_information = []\<rparr>"
proof -
  from MetaFile_init_loaded [OF assms(1)] have pending: "new_information self = []" by blast
  let ?fs' = "fs\<lparr>content := Some (file_text fs @ concat (map (render_info isoformat) [info]))\<rparr>"
  have w: "MetaFile_write isoformat (add_information self info) fs =
      (None, (add_information self info)\<lparr>new_information := []\<rparr>, ?fs')"
    using assms(5) pending
    by (simp add: MetaFile_write_def add_information_def file_text_def)
  have "fst (MetaFile_init fromisoformat ?fs') =
      Inr \<lparr>data = foldl merge_info (data self) [info], new_information = []\<rparr>"
    by (rule reload_after_append [OF assms(1) _ assms(3)]) (use assms(2,4) in simp_all)
  with w show ?thesis by (simp add: data_add_information)
qed

theorem write_then_reload_witness:
  "fst (MetaFile_init py_fromisoformat ex_record) = Inr ex_loaded \<and>
   storable_info py_isoformat py_fromisoformat ex_early \<and>
   (file_text ex_record = [] \<or> last (file_text ex_record) = LF) \<and>
   can_read ex_record \<and> can_append ex_record \<and>
   fst (MetaFile_write py_isoformat (add_information ex_loaded ex_early) ex_record) = None \<and>
   fst (MetaFile_init py_fromisoformat
          (snd (snd (MetaFile_write py_isoformat (add_information ex_loaded ex_early) ex_record)))) =
     Inr \<lparr>data = [(''plot.png'',
                     [(''infra_correction'', \<lparr>value_dv = ''8.2'', time_dv = ex_t1\<rparr>),
                      (''origin'', \<lparr>value_dv = ''run a=8.2'', time_dv = ex_t1\<rparr>)])],
          new_information = []\<rparr>"
proof -
  have h1: "fst (MetaFile_init py_fromisoformat ex_record) = Inr ex_loaded"
    by (simp add: init_ex_record)
  have h2: "storable_info py_isoformat py_fromisoformat ex_early"
    by (simp add: storable_ex)
  have h3: "file_text ex_record = [] \<or> last (file_text ex_record) = LF"
    by (simp add: file_text_def ex_record_def)
  have h4: "can_read ex_record" and h5: "can_append ex_record"
    by (simp_all add: ex_record_def)
  have "data (add_information ex_loaded ex_early) =
      [(''plot.png'',
        [(''infra_correction'', \<lparr>value_dv = ''8.2'', time_dv = ex_t1\<rparr>),
         (''origin'', \<lparr>value_dv = ''run a=8.2'', time_dv = ex_t1\<rparr>)])]"
    by (simp add: add_information_def ex_loaded_def ex_early_def setdefault_empty_def
        setitem_inner_def dict_setitem_def)
  with write_then_reload [OF h1 h2 h3 h4 h5] h1 h2 h3 h4 h5
  show ?thesis by simp
qed

text \<open>Against C2 as stated: the object name has no \<^verbatim>\<open>@\<close>, the key no \<^verbatim>\<open>=\<close>, and the value
  is two lines. The flush succeeds and the record can no longer be loaded: its second line
  is read as a property line without \<^verbatim>\<open>=\<close>.\<close>

theorem two_line_value_counterexample:
  "CHR ''@'' \<notin> set (filename ex_two_lines) \<and>
   list_all (\<lambda>kv. CHR ''='' \<notin> set (fst kv)) (properties ex_two_lines) \<and>
   fst (MetaFile_init py_fromisoformat ex_absent) = Inr ex_new \<and>
   fst (MetaFile_write py_isoformat (add_information ex_new ex_two_lines) ex_absent) = None \<and>
   fst (MetaFile_init py_fromisoformat
          (snd (snd (MetaFile_write py_isoformat (add_information ex_new ex_two_lines) ex_absent)))) =
     Inl (ValueError NotEnoughValues)"
  by (simp add: ex_two_lines_def ex_absent_def ex_new_def MetaFile_write_def add_information_def
      render_info_def render_property_def load_eval)

subsection \<open>C3: a property line before any header line\<close>

text \<open>
  C3: when a line that does not start with \<^verbatim>\<open>@\<close> comes before every header line of a
  readable record, loading raises a \<^verbatim>\<open>ValueError\<close> and no store is produced. The error is
  raised at the first line of the record: the explicit one (no object context) when that
  line holds \<^verbatim>\<open>=\<close>, the one of the failed unpacking when it does not.
\<close>

theorem property_line_before_header_is_fatal:
  assumes "content fs = Some body" and "can_read fs"
    and "file_lines fs = before @ line # after"
    and "list_all (\<lambda>l. \<not> startswith_at l) before" and "\<not> startswith_at line"
  shows "MetaFile_init fromisoformat fs =
           (Inl (ValueError (if CHR ''='' \<in> set (hd (before @ [line]))
                             then NotStartingWithAt else NotEnoughValues)), fs)"
proof (cases before)
  case Nil
  with first_line_not_header [OF assms(1,2) _ assms(5), of after fromisoformat] assms(3)
  show ?thesis by simp
next
  case (Cons first others)
  with assms(4) have "\<not> startswith_at first" by simp
  with first_line_not_header [OF assms(1,2), of first "others @ line # after" fromisoformat]
    assms(3) Cons
  show ?thesis by simp
qed

theorem property_line_before_header_is_fatal_witness:
  "content ex_headless = Some (''description=Cleaned'' @ [LF] @
                               ''@results.csv@2021-01-01T00:00:00'' @ [LF]) \<and>
   can_read ex_headless \<and>
   file_lines ex_headless = [] @ (''description=Cleaned'' @ [LF]) #
                            [''@results.csv@2021-01-01T00:00:00'' @ [LF]] \<and>
   list_all (\<lambda>l. \<not> startswith_at l) [] \<and>
   \<not> startswith_at (''description=Cleaned'' @ [LF]) \<and>
   MetaFile_init py_fromisoformat ex_headless = (Inl (ValueError NotStartingWithAt), ex_headless)"
proof -
  have h1: "content ex_headless = Some (''description=Cleaned'' @ [LF] @
                               ''@results.csv@2021-01-01T00:00:00'' @ [LF])"
    and h2: "can_read ex_headless"
    by (simp_all add: ex_headless_def)
  have h3: "file_lines ex_headless = [] @ (''description=Cleaned'' @ [LF]) #
                            [''@results.csv@2021-01-01T00:00:00'' @ [LF]]"
    by (simp add: file_lines_def file_text_def ex_headless_def)
  have h4: "list_all (\<lambda>l. \<not> startswith_at l) []"
    by simp
  have h5: "\<not> startswith_at (''description=Cleaned'' @ [LF])"
    by (simp add: startswith_at_def)
  from property_line_before_header_is_fatal [OF h1 h2 h3 h4 h5, of py_fromisoformat] h1 h2 h3 h4 h5
  show ?thesis by simp
qed

subsection \<open>C4: loading leaves the record alone\<close>

text \<open>
  C4: the constructor returns the file as it found it, whatever the outcome, and with no
  file at the location the store starts with empty entries (and the location stays absent).
\<close>

theorem load_is_read_only:
  "snd (MetaFile_init fromisoformat fs) = fs \<and>
   (content fs = None \<longrightarrow>
      fst (MetaFile_init fromisoformat fs) = Inr \<lparr>data = [], new_information = []\<rparr>)"
  by (simp add: MetaFile_init_frame MetaFile_init_absent)

theorem load_is_read_only_witness:
  "content ex_absent = None \<and>
   MetaFile_init py_fromisoformat ex_absent = (Inr \<lparr>data = [], new_information = []\<rparr>, ex_absent)"
proof -
  have h: "content ex_absent = None" by (simp add: ex_absent_def)
  with load_is_read_only [of py_fromisoformat ex_absent] show ?thesis
    by (metis prod.collapse)
qed

subsection \<open>C5: what the \<open>get\<close> action prints\<close>

text \<open>
  C5 says that \<^verbatim>\<open>get\<close> returns the value string of the stored \<^verbatim>\<open>DatedValue\<close> when the pair
  is present and the default otherwise. On a miss the action does print the default. On a
  hit it prints the \<^verbatim>\<open>DatedValue\<close> object, not its \<^verbatim>\<open>value\<close>: \<^verbatim>\<open>meta.get(...) or args.default\<close>
  is the object itself. The module's usage text promises \<^verbatim>\<open>8.2\<close> for such a call, and the
  \<^verbatim>\<open>list\<close> action does take \<^verbatim>\<open>description.value\<close>. Here the record holds
  \<^verbatim>\<open>infra_correction=9.0\<close> for \<^verbatim>\<open>plot.png\<close>.
\<close>

theorem get_action_prints_object:
  "fst (MetaFile_init py_fromisoformat ex_record) = Inr ex_loaded \<and>
   main_get ex_loaded ''plot.png'' [''infra_correction'', ''origin''] ''foo'' =
     [DatedValueObject \<lparr>value_dv = ''9.0'', time_dv = ex_t2\<rparr>, Str ''foo'']"
  by (simp add: init_ex_record main_get_def get_def ex_loaded_def)

subsection \<open>C6: a flush that cannot open the record\<close>

text \<open>
  C6: when there is something pending and the record cannot be opened for appending,
  \<^verbatim>\<open>write\<close> raises the \<^verbatim>\<open>OSError\<close>, and the object, its pending batches included, and the
  file are as before.
\<close>

theorem failed_flush_keeps_pending:
  assumes "new_information self \<noteq> []" and "\<not> can_append fs"
  shows "MetaFile_write isoformat self fs = (Some OSError, self, fs)"
  using assms by (simp add: MetaFile_write_def)

theorem failed_flush_keeps_pending_witness:
  "new_information (add_information ex_loaded ex_early) \<noteq> [] \<and>
   \<not> can_append ex_readonly \<and>
   MetaFile_write py_isoformat (add_information ex_loaded ex_early) ex_readonly =
     (Some OSError, add_information ex_loaded ex_early, ex_readonly) \<and>
   new_information (add_information ex_loaded ex_early) = [ex_early]"
proof -
  have h1: "new_information (add_information ex_loaded ex_early) \<noteq> []"
    by (simp add: add_information_def)
  have h2: "\<not> can_append ex_readonly"
    by (simp add: ex_readonly_def)
  have "new_information (add_information ex_loaded ex_early) = [ex_early]"
    by (simp add: add_information_def ex_loaded_def)
  with failed_flush_keeps_pending [OF h1 h2, of py_isoformat] h1 h2
  show ?thesis by simp
qed

subsection \<open>C7: a flush with nothing pending\<close>

text \<open>
  C7: with nothing pending, \<^verbatim>\<open>write\<close> does not open the record: the file is as before (an
  absent one stays absent), and nothing is raised.
\<close>

theorem empty_flush_is_noop:
  assumes "new_information self = []"
  shows "MetaFile_write isoformat self fs = (None, self, fs)"
  using assms by (simp add: MetaFile_write_def)

theorem empty_flush_is_noop_witness:
  "new_information ex_new = [] \<and> content ex_absent = None \<and>
   MetaFile_write py_isoformat ex_new ex_absent = (None, ex_new, ex_absent)"
proof -
  have h: "new_information ex_new = []" by (simp add: ex_new_def)
  from empty_flush_is_noop [OF h, of py_isoformat ex_absent] h
  show ?thesis by (simp add: ex_absent_def)
qed

subsection \<open>C8: the order and the content of the listing\<close>

text \<open>
  C8: after loading a record and adding batches, \<^verbatim>\<open>files\<close> lists the object names in the
  order of their first occurrence, the header lines of the record first and the added
  batches after them, and the \<^verbatim>\<open>list\<close> action prints for each of them, in that order, the
  name and the value of its \<^verbatim>\<open>description\<close> property, or the default when it has none.
\<close>

theorem list_in_order_of_introduction:
  assumes "fst (MetaFile_init fromisoformat fs) = Inr loaded"
  shows "files (foldl add_information loaded pend) =
           first_occurrences (header_names (file_lines fs) @ map filename pend) \<and>
         main_list (foldl add_information loaded pend) default_value =
           map (\<lambda>name. name @ TAB #
                  (case get (foldl add_information loaded pend) name ''description'' of
                     None \<Rightarrow> default_value
                   | Some dv \<Rightarrow> value_dv dv))
               (first_occurrences (header_names (file_lines fs) @ map filename pend))"
proof -
  from MetaFile_init_loaded [OF assms] obtain st where
    st: "load_lines fromisoformat loop_init (file_lines fs) = Inr st" "loop_data st = data loaded"
    by blast
  have "map fst (loop_data (loop_init :: 'a loop_state)) = first_occurrences []"
    by (simp add: loop_init_def)
  from load_lines_names [OF st(1) this] st(2)
  have "map fst (data loaded) = first_occurrences (header_names (file_lines fs))" by simp
  from merged_names [OF this, of pend]
  have "files (foldl add_information loaded pend) =
      first_occurrences (header_names (file_lines fs) @ map filename pend)"
    by (simp add: files_def data_foldl_add_information)
  then show ?thesis by (simp add: main_list_def)
qed

theorem list_in_order_of_introduction_witness:
  "fst (MetaFile_init py_fromisoformat ex_directory) = Inr ex_directory_loaded \<and>
   files (foldl add_information ex_directory_loaded ex_pending) = [''b.csv'', ''a.png'', ''c.txt''] \<and>
   main_list (foldl add_information ex_directory_loaded ex_pending) ''n/a'' =
     [''b.csv'' @ TAB # ''Cleaned'', ''a.png'' @ TAB # ''n/a'', ''c.txt'' @ TAB # ''n/a'']"
proof -
  have h: "fst (MetaFile_init py_fromisoformat ex_directory) = Inr ex_directory_loaded"
    by (simp add: init_ex_directory)
  have names: "first_occurrences (header_names (file_lines ex_directory) @ map filename ex_pending) =
      [''b.csv'', ''a.png'', ''c.txt'']"
    by (simp add: header_names_def file_lines_def file_text_def ex_directory_def ex_pending_def
        startswith_at_def)
  have gets:
    "get (foldl add_information ex_directory_loaded ex_pending) ''b.csv'' ''description'' =
       Some \<lparr>value_dv = ''Cleaned'', time_dv = ex_t1\<rparr>"
    "get (foldl add_information ex_directory_loaded ex_pending) ''a.png'' ''description'' = None"
    "get (foldl add_information ex_directory_loaded ex_pending) ''c.txt'' ''description'' = None"
    by (simp_all add: get_def add_information_def ex_directory_loaded_def ex_pending_def
        setdefault_empty_def setitem_inner_def dict_setitem_def)
  from list_in_order_of_introduction [OF h, of ex_pending "''n/a''"] h
  show ?thesis by (simp add: names gets)
qed

subsection \<open>C9: a line that is neither a header nor a \<open>key=value\<close> pair\<close>

text \<open>
  C9: a line of the record that does not start with \<^verbatim>\<open>@\<close> and holds no \<^verbatim>\<open>=\<close>, a blank
  line included, makes loading raise: the error of an earlier line when one fails, otherwise
  the \<^verbatim>\<open>ValueError\<close> of unpacking this line. This holds wherever the line stands, after a
  header line in particular.
\<close>

theorem line_without_equals_is_fatal:
  assumes "content fs = Some body" and "can_read fs"
    and "file_lines fs = before @ line # after"
    and "\<not> startswith_at line" and "CHR ''='' \<notin> set line"
  shows "fst (MetaFile_init fromisoformat fs) =
           (case load_lines fromisoformat loop_init before of
              Inl e \<Rightarrow> Inl e
            | Inr st \<Rightarrow> Inl (ValueError NotEnoughValues))"
  using load_line_without_equals [OF assms(4,5), of fromisoformat]
  by (simp add: MetaFile_init_lines [OF assms(1,2)] assms(3) load_lines_append split: sum.splits)

theorem line_without_equals_is_fatal_witness:
  "content ex_blank_line = Some (''@results.csv@2021-01-01T00:00:00'' @ [LF] @ [LF] @
                                 ''description=Cleaned'' @ [LF]) \<and>
   can_read ex_blank_line \<and>
   file_lines ex_blank_line =
     [''@results.csv@2021-01-01T00:00:00'' @ [LF]] @ [LF] # [''description=Cleaned'' @ [LF]] \<and>
   \<not> startswith_at [LF] \<and> CHR ''='' \<notin> set [LF] \<and>
   fst (MetaFile_init py_fromisoformat ex_blank_line) = Inl (ValueError NotEnoughValues)"
proof -
  have h1: "content ex_blank_line = Some (''@results.csv@2021-01-01T00:00:00'' @ [LF] @ [LF] @
                                 ''description=Cleaned'' @ [LF])"
    and h2: "can_read ex_blank_line"
    by (simp_all add: ex_blank_line_def)
  have h3: "file_lines ex_blank_line =
     [''@results.csv@2021-01-01T00:00:00'' @ [LF]] @ [LF] # [''description=Cleaned'' @ [LF]]"
    by (simp add: file_lines_def file_text_def ex_blank_line_def)
  have h4: "\<not> startswith_at [LF]" and h5: "CHR ''='' \<notin> set [LF]"
    by (simp_all add: startswith_at_def)
  have "load_lines py_fromisoformat loop_init [''@results.csv@2021-01-01T00:00:00'' @ [LF]] =
      Inr \<lparr>loop_data = [(''results.csv'', [])], current_dict = Some ''results.csv'',
           file_time = Some ex_t1\<rparr>"
    by (simp add: load_eval)
  with line_without_equals_is_fatal [OF h1 h2 h3 h4 h5, of py_fromisoformat] h1 h2 h3 h4 h5
  show ?thesis by simp
qed

subsection \<open>C10: a batch without properties\<close>

text \<open>
  C10: adding a batch with no properties puts its object name among \<^verbatim>\<open>files\<close>, with the
  properties the object already had and none when it is new; flushing it, with nothing else
  pending, appends the header line alone.
\<close>

theorem empty_batch_registers_object:
  assumes "properties info = []"
  shows "filename info \<in> set (files (add_information self info)) \<and>
         map_of (data (add_information self info)) (filename info) =
           Some (case map_of (data self) (filename info) of None \<Rightarrow> [] | Some d \<Rightarrow> d) \<and>
         (new_information self = [] \<and> can_append fs \<longrightarrow>
            MetaFile_write isoformat (add_information self info) fs =
              (None,
               (add_information self info)\<lparr>new_information := []\<rparr>,
               fs\<lparr>content := Some (file_text fs @
                     CHR ''@'' # filename info @ CHR ''@'' # isoformat (time info) @ [LF])\<rparr>))"
proof -
  have d: "data (add_information self info) = setdefault_empty (data self) (filename info)"
    using assms by (simp add: add_information_def)
  have "filename info \<in> set (files (add_information self info))"
    by (simp add: files_def d map_fst_setdefault_empty)
  moreover have "map_of (data (add_information self info)) (filename info) =
      Some (case map_of (data self) (filename info) of None \<Rightarrow> [] | Some d \<Rightarrow> d)"
    by (simp add: d map_of_setdefault_empty split: option.splits)
  moreover have "new_information self = [] \<and> can_append fs \<longrightarrow>
      MetaFile_write isoformat (add_information self info) fs =
        (None, (add_information self info)\<lparr>new_information := []\<rparr>,
         fs\<lparr>content := Some (file_text fs @
               CHR ''@'' # filename info @ CHR ''@'' # isoformat (time info) @ [LF])\<rparr>)"
    using assms
    by (simp add: MetaFile_write_def add_information_def render_info_def file_text_def)
  ultimately show ?thesis by blast
qed

theorem empty_batch_registers_object_witness:
  "properties ex_bare = [] \<and>
   files (add_information ex_new ex_bare) = [''results.csv''] \<and>
   map_of (data (add_information ex_new ex_bare)) ''results.csv'' = Some [] \<and>
   new_information ex_new = [] \<and> can_append ex_absent \<and>
   MetaFile_write py_isoformat (add_information ex_new ex_bare) ex_absent =
     (None,
      (add_information ex_new ex_bare)\<lparr>new_information := []\<rparr>,
      ex_absent\<lparr>content := Some (''@results.csv@2021-01-01T00:00:00'' @ [LF])\<rparr>)"
proof -
  have h1: "properties ex_bare = []" by (simp add: ex_bare_def)
  have h2: "new_information ex_new = []" by (simp add: ex_new_def)
  have h3: "can_append ex_absent" by (simp add: ex_absent_def)
  have f: "files (add_information ex_new ex_bare) = [''results.csv'']"
    by (simp add: files_def add_information_def ex_new_def ex_bare_def setdefault_empty_def)
  have n: "filename ex_bare = ''results.csv''" "time ex_bare = ex_t1" "data ex_new = []"
    "file_text ex_absent = []"
    by (simp_all add: ex_bare_def ex_new_def file_text_def ex_absent_def)
  from empty_batch_registers_object [OF h1, of ex_new ex_absent py_isoformat] h1 h2 h3 f
  show ?thesis by (simp add: n)
qed

end
